theory Spec2Isabelle
  imports Complex_Main "HOL-Library.Sublist"
begin

section \<open>Python values used by scripts/link-checker.py\<close>

text \<open>
  Text is modelled as \<^typ>\<open>string\<close> (a list of 8-bit characters): the model covers
  ASCII text. Exceptions are values: a function of the source that can raise returns
  \<open>exn + 'a\<close>, with \<open>Inl\<close> for the raised exception.
\<close>

datatype exn =
    RequestException string  \<comment> \<open>requests.exceptions.RequestException (any subclass), with its \<open>str\<close>\<close>
  | OtherException string    \<comment> \<open>any other subclass of Exception raised by a library call\<close>
  | ValueError
  | TypeError
  | IndexError

definition ascii_upper :: string where
  "ascii_upper = ''ABCDEFGHIJKLMNOPQRSTUVWXYZ''"

definition ascii_lower :: string where
  "ascii_lower = ''abcdefghijklmnopqrstuvwxyz''"

definition lower_char :: "char \<Rightarrow> char" where
  "lower_char c = (case map_of (zip ascii_upper ascii_lower) c of Some l \<Rightarrow> l | None \<Rightarrow> c)"

text \<open>\<open>s.lower()\<close>, \<open>s.startswith(p)\<close>, \<open>s.endswith(e)\<close>, \<open>p in s\<close>, \<open>s.rstrip(c)\<close>.\<close>

definition lower :: "string \<Rightarrow> string" where
  "lower s = map lower_char s"

definition startswith :: "string \<Rightarrow> string \<Rightarrow> bool" where
  "startswith s p = prefix p s"

definition endswith :: "string \<Rightarrow> string \<Rightarrow> bool" where
  "endswith s e = suffix e s"

fun contains :: "string \<Rightarrow> string \<Rightarrow> bool" where
  "contains p [] = (p = [])"
| "contains p (c # cs) = (prefix p (c # cs) \<or> contains p cs)"

definition rstrip :: "char \<Rightarrow> string \<Rightarrow> string" where
  "rstrip c s = rev (dropWhile (\<lambda>x. x = c) (rev s))"

text \<open>\<open>str(n)\<close> for an integer, as an f-string prints it.\<close>

fun str_nat :: "nat \<Rightarrow> string" where
  "str_nat n =
     (if n < 10 then [''0123456789'' ! n]
      else str_nat (n div 10) @ [''0123456789'' ! (n mod 10)])"

declare str_nat.simps [simp del]

definition str_int :: "int \<Rightarrow> string" where
  "str_int i = (if i < 0 then ''-'' @ str_nat (nat (- i)) else str_nat (nat i))"

text \<open>Truthiness of an optional string (\<open>None\<close> and \<open>''\<close> are false), and the text
  an f-string prints for it.\<close>

definition truthy :: "string option \<Rightarrow> bool" where
  "truthy v = (case v of None \<Rightarrow> False | Some s \<Rightarrow> s \<noteq> [])"

definition fmt :: "string option \<Rightarrow> string" where
  "fmt v = (case v of None \<Rightarrow> ''None'' | Some s \<Rightarrow> s)"

section \<open>The libraries the script calls\<close>

text \<open>
  \<open>urllib.parse\<close> and \<open>requests\<close> are not code of the repository. The script's functions
  take them from a \<open>world\<close>: the two pure functions of \<open>urllib.parse\<close> it imports and
  uses, and the answers of the network to the GET requests of \<open>self.session\<close>.
\<close>

record parse_result =
  scheme :: string
  netloc :: string
  path :: string
  params :: string
  query :: string
  fragment :: string

record response =
  resp_status_code :: int                  \<comment> \<open>\<open>response.status_code\<close>\<close>
  resp_elapsed :: nat                      \<comment> \<open>\<open>response.elapsed\<close>, a timedelta, in microseconds\<close>
  resp_url :: string                       \<comment> \<open>\<open>response.url\<close>\<close>
  resp_content_type :: "string option"     \<comment> \<open>the content-type header, when the response has one\<close>
  resp_text :: string                      \<comment> \<open>\<open>response.text\<close>\<close>

datatype get_outcome = Returns response | Raises exn

datatype get_call =
    CheckGet string   \<comment> \<open>\<open>self.session.get(url, timeout=10, allow_redirects=True)\<close> of check_url\<close>
  | BodyGet string    \<comment> \<open>\<open>self.session.get(current_url)\<close> of crawl\<close>

record world =
  urlparse :: "string \<Rightarrow> exn + parse_result"
  urljoin :: "string \<Rightarrow> string \<Rightarrow> exn + string"
  session_get :: "get_call list \<Rightarrow> get_call \<Rightarrow> get_outcome"
    \<comment> \<open>the outcome of a GET, given the requests issued before it\<close>

section \<open>The LinkChecker object\<close>

record fetch_result =
  url :: string
  status_code :: "int option"
  response_time :: "nat option"
  final_url :: "string option"
  content_type :: "string option"
  error :: "string option"

record link_record = fetch_result +
  issue :: string

definition with_issue :: "fetch_result \<Rightarrow> string \<Rightarrow> link_record" where
  \<comment> \<open>\<open>{**result, 'issue': i}\<close>\<close>
  "with_issue result i =
     \<lparr>url = url result, status_code = status_code result,
      response_time = response_time result, final_url = final_url result,
      content_type = content_type result, error = error result, issue = i\<rparr>"

record link_checker =
  base_url :: string
  max_pages :: int
  delay :: real
  visited :: "string set"
  to_visit :: "string list"
  broken_links :: "link_record list"
  valid_links :: "fetch_result list"
  get_log :: "get_call list"   \<comment> \<open>ghost field: the GET requests issued through \<open>self.session\<close>\<close>

definition init :: "string \<Rightarrow> int \<Rightarrow> real \<Rightarrow> link_checker" where
  \<comment> \<open>\<open>LinkChecker.__init__\<close>\<close>
  "init base_url0 max_pages0 delay0 =
     \<lparr>base_url = rstrip (CHR ''/'') base_url0, max_pages = max_pages0, delay = delay0,
      visited = {}, to_visit = [base_url0], broken_links = [], valid_links = [],
      get_log = []\<rparr>"

subsection \<open>is_valid_url\<close>

definition skip_extensions :: "string list" where
  "skip_extensions =
     [''.png'', ''.jpg'', ''.jpeg'', ''.gif'', ''.svg'', ''.ico'',
      ''.css'', ''.js'', ''.pdf'', ''.zip'', ''.exe'', ''.dmg'']"

definition clean_url :: "parse_result \<Rightarrow> string" where
  \<comment> \<open>\<open>f"{parsed.scheme}://{parsed.netloc}{parsed.path}"\<close>\<close>
  "clean_url parsed = scheme parsed @ ''://'' @ netloc parsed @ path parsed"

definition is_valid_url_body :: "world \<Rightarrow> link_checker \<Rightarrow> string \<Rightarrow> exn + bool" where
  \<comment> \<open>the body of the \<open>try\<close>\<close>
  "is_valid_url_body W self u =
     (case urlparse W u of
        Inl e \<Rightarrow> Inl e
      | Inr parsed \<Rightarrow>
          (case urlparse W (base_url self) of
             Inl e \<Rightarrow> Inl e
           | Inr base_parsed \<Rightarrow>
               if netloc parsed \<noteq> [] \<and> netloc parsed \<noteq> netloc base_parsed then Inr False
               else if scheme parsed \<noteq> [] \<and> scheme parsed \<notin> set [''http'', ''https'']
                 then Inr False
               else if list_ex (\<lambda>ext. endswith (lower u) ext) skip_extensions then Inr False
               else Inr (clean_url parsed \<notin> visited self)))"

definition is_valid_url :: "world \<Rightarrow> link_checker \<Rightarrow> string \<Rightarrow> bool" where
  \<comment> \<open>\<open>except Exception: return False\<close>\<close>
  "is_valid_url W self u =
     (case is_valid_url_body W self u of Inl e \<Rightarrow> False | Inr b \<Rightarrow> b)"

definition canonicalize :: "world \<Rightarrow> string \<Rightarrow> exn + string" where
  \<comment> \<open>the canonical form the script computes in is_valid_url and in extract_links:
      \<open>parsed = urlparse(url); clean_url = f"{parsed.scheme}://{parsed.netloc}{parsed.path}"\<close>\<close>
  "canonicalize W u =
     (case urlparse W u of Inl e \<Rightarrow> Inl e | Inr parsed \<Rightarrow> Inr (clean_url parsed))"

subsection \<open>extract_links\<close>

text \<open>
  \<open>re.finditer(r'href=["\']([^"\']+)["\']', html_content, re.IGNORECASE)\<close>: the attribute
  name in any letter case, a quote, one or more characters that are not quotes, a quote.
  \<open>match_attr name s\<close> matches the pattern at the start of \<open>s\<close> and gives group 1 and the
  text after the match.
\<close>

definition is_quote :: "char \<Rightarrow> bool" where
  "is_quote c \<longleftrightarrow> c = CHR 0x22 \<or> c = CHR 0x27"

definition match_attr :: "string \<Rightarrow> string \<Rightarrow> (string \<times> string) option" where
  "match_attr name s =
     (if lower (take (length name) s) = name then
        (case drop (length name) s of
           [] \<Rightarrow> None
         | q # t \<Rightarrow>
             if is_quote q then
               (case dropWhile (\<lambda>c. \<not> is_quote c) t of
                  [] \<Rightarrow> None
                | q' # rest \<Rightarrow>
                    if takeWhile (\<lambda>c. \<not> is_quote c) t = [] then None
                    else Some (takeWhile (\<lambda>c. \<not> is_quote c) t, rest))
             else None)
      else None)"

function finditer :: "string \<Rightarrow> string \<Rightarrow> string list" where
  "finditer name [] = []"
| "finditer name (c # cs) =
     (case match_attr name (c # cs) of
        Some (g, rest) \<Rightarrow> g # finditer name rest
      | None \<Rightarrow> finditer name cs)"
  by pat_completeness auto
termination
proof (relation "measure (\<lambda>(name, s). length s)")
  fix name :: string and c :: char and cs x y :: string and x2 :: "string \<times> string"
  assume m: "match_attr name (c # cs) = Some x2" and x2: "(x, y) = x2"
  from m x2 obtain q t q' where t: "drop (length name) (c # cs) = q # t"
      and r: "dropWhile (\<lambda>c. \<not> is_quote c) t = q' # y"
    by (auto simp: match_attr_def split: if_splits list.splits)
  have "length (dropWhile (\<lambda>c. \<not> is_quote c) t) \<le> length t"
    by (rule length_dropWhile_le)
  with r have "length y < length t" by simp
  moreover have "length (drop (length name) (c # cs)) \<le> length (c # cs)" by simp
  with t have "length t < length (c # cs)" by simp
  ultimately show "((name, y), name, c # cs) \<in> measure (\<lambda>(name, s). length s)" by simp
qed simp_all

text \<open>
  The \<open>href\<close> loop and the \<open>src\<close> loop of extract_links, over the matches in the order
  \<open>finditer\<close> yields them. An exception of \<open>urljoin\<close> (or of the second \<open>urlparse\<close>) is
  not caught in extract_links: it ends the function, as \<open>Inl\<close>.
\<close>

fun href_links :: "world \<Rightarrow> link_checker \<Rightarrow> string \<Rightarrow> string list \<Rightarrow> exn + string list" where
  "href_links W self current_url [] = Inr []"
| "href_links W self current_url (link # others) =
     (case urljoin W current_url link of
        Inl e \<Rightarrow> Inl e
      | Inr full_url \<Rightarrow>
          if is_valid_url W self full_url then
            (case urlparse W full_url of
               Inl e \<Rightarrow> Inl e
             | Inr parsed \<Rightarrow>
                 (case href_links W self current_url others of
                    Inl e \<Rightarrow> Inl e
                  | Inr links \<Rightarrow> Inr (clean_url parsed # links)))
          else href_links W self current_url others)"

fun src_links :: "world \<Rightarrow> link_checker \<Rightarrow> string \<Rightarrow> string list \<Rightarrow> exn + string list" where
  "src_links W self current_url [] = Inr []"
| "src_links W self current_url (link # others) =
     (case urljoin W current_url link of
        Inl e \<Rightarrow> Inl e
      | Inr full_url \<Rightarrow>
          (case src_links W self current_url others of
             Inl e \<Rightarrow> Inl e
           | Inr links \<Rightarrow>
               if startswith full_url (base_url self) then Inr (full_url # links)
               else Inr links))"

definition extract_links ::
  "world \<Rightarrow> link_checker \<Rightarrow> string \<Rightarrow> string \<Rightarrow> exn + string list" where
  \<comment> \<open>the returned set, as the list of its elements (each once) in the order the
      \<open>for link in links\<close> of crawl visits them; Python leaves the order of a set open,
      the model takes the order of insertion\<close>
  "extract_links W self html_content current_url =
     (case href_links W self current_url (finditer ''href='' html_content) of
        Inl e \<Rightarrow> Inl e
      | Inr hrefs \<Rightarrow>
          (case src_links W self current_url (finditer ''src='' html_content) of
             Inl e \<Rightarrow> Inl e
           | Inr srcs \<Rightarrow> Inr (remdups (hrefs @ srcs))))"

subsection \<open>check_url\<close>

definition check_url ::
  "world \<Rightarrow> link_checker \<Rightarrow> string \<Rightarrow> (exn + fetch_result) \<times> link_checker" where
  \<comment> \<open>the result (or the exception that is not a RequestException, which check_url does
      not catch), and the object with the request logged\<close>
  "check_url W self u =
     (let self' = self\<lparr>get_log := get_log self @ [CheckGet u]\<rparr> in
      case session_get W (get_log self) (CheckGet u) of
        Returns response \<Rightarrow>
          (Inr \<lparr>url = u,
                status_code = Some (resp_status_code response),
                response_time = Some (resp_elapsed response),
                final_url = Some (resp_url response),
                content_type =
                  Some (case resp_content_type response of None \<Rightarrow> [] | Some c \<Rightarrow> c),
                error = None\<rparr>, self')
      | Raises e \<Rightarrow>
          (case e of
             RequestException msg \<Rightarrow>
               (Inr \<lparr>url = u, status_code = None, response_time = None, final_url = None,
                     content_type = None, error = Some msg\<rparr>, self')
           | _ \<Rightarrow> (Inl e, self')))"

subsection \<open>crawl\<close>

definition discover :: "world \<Rightarrow> link_checker \<Rightarrow> string \<Rightarrow> link_checker" where
  \<comment> \<open>the \<open>try\<close> block of crawl: the second GET, extract_links, and the appends to
      \<open>self.to_visit\<close>; \<open>except Exception\<close> swallows every exception\<close>
  "discover W self current_url =
     (let self' = self\<lparr>get_log := get_log self @ [BodyGet current_url]\<rparr> in
      case session_get W (get_log self) (BodyGet current_url) of
        Raises e \<Rightarrow> self'
      | Returns response \<Rightarrow>
          (case extract_links W self' (resp_text response) current_url of
             Inl e \<Rightarrow> self'
           | Inr links \<Rightarrow>
               self'\<lparr>to_visit := to_visit self' @ filter (\<lambda>link. link \<notin> visited self') links\<rparr>))"

definition classify ::
  "world \<Rightarrow> link_checker \<Rightarrow> string \<Rightarrow> fetch_result \<Rightarrow> exn + link_checker" where
  \<comment> \<open>the \<open>if result['error'] ... elif ... else\<close> of crawl; \<open>None >= 400\<close> raises TypeError\<close>
  "classify W self current_url result =
     (if truthy (error result) then
        Inr (self\<lparr>broken_links := broken_links self @
               [with_issue result (''Connection error: '' @ fmt (error result))]\<rparr>)
      else
        (case status_code result of
           None \<Rightarrow> Inl TypeError
         | Some code \<Rightarrow>
             if code \<ge> 400 then
               Inr (self\<lparr>broken_links := broken_links self @
                      [with_issue result (''HTTP '' @ str_int code @ '' error'')]\<rparr>)
             else
               (let self' = self\<lparr>valid_links := valid_links self @ [result]\<rparr> in
                if truthy (content_type result)
                   \<and> contains ''text/html'' (fmt (content_type result))
                   \<and> code = 200
                then Inr (discover W self' current_url)
                else Inr self')))"

definition sleep :: "real \<Rightarrow> exn option" where
  \<comment> \<open>\<open>time.sleep(secs)\<close> raises ValueError for a negative length\<close>
  "sleep secs = (if secs < 0 then Some ValueError else None)"

definition loop_cond :: "int \<Rightarrow> link_checker \<Rightarrow> bool" where
  \<comment> \<open>\<open>self.to_visit and pages_checked < self.max_pages\<close>\<close>
  "loop_cond pages_checked self \<longleftrightarrow> to_visit self \<noteq> [] \<and> pages_checked < max_pages self"

definition crawl_body ::
  "world \<Rightarrow> int \<Rightarrow> link_checker \<Rightarrow> exn option \<times> int \<times> link_checker" where
  \<comment> \<open>one pass through the body of the \<open>while\<close>: the exception that ends it, if any, and
      \<open>pages_checked\<close> and the object as the pass leaves them\<close>
  "crawl_body W pages_checked self =
     (case to_visit self of
        [] \<Rightarrow> (Some IndexError, pages_checked, self)
      | current_url # rest \<Rightarrow>
          (let self1 = self\<lparr>to_visit := rest\<rparr> in
           if current_url \<in> visited self1 then (None, pages_checked, self1)
           else
             (let self2 = self1\<lparr>visited := insert current_url (visited self1)\<rparr>;
                  pages_checked' = pages_checked + 1
              in case check_url W self2 current_url of
                   (Inl e, self3) \<Rightarrow> (Some e, pages_checked', self3)
                 | (Inr result, self3) \<Rightarrow>
                     (case classify W self3 current_url result of
                        Inl e \<Rightarrow> (Some e, pages_checked', self3)
                      | Inr self4 \<Rightarrow> (sleep (delay self4), pages_checked', self4)))))"

partial_function (option) crawl_loop ::
  "world \<Rightarrow> int \<Rightarrow> link_checker \<Rightarrow> (exn option \<times> int \<times> link_checker) option" where
  "crawl_loop W pages_checked self =
     (if loop_cond pages_checked self then
        (case crawl_body W pages_checked self of
           (None, pages_checked', self') \<Rightarrow> crawl_loop W pages_checked' self'
         | (Some e, pages_checked', self') \<Rightarrow> Some (Some e, pages_checked', self'))
      else Some (None, pages_checked, self))"

definition crawl :: "world \<Rightarrow> link_checker \<Rightarrow> (exn option \<times> int \<times> link_checker) option" where
  \<comment> \<open>\<open>None\<close>: the loop does not end. Otherwise the exception crawl raises, if any, the
      \<open>pages_checked\<close> it prints last, and the object\<close>
  "crawl W self = crawl_loop W 0 self"

declare crawl_loop.simps [code]

definition fetch_attempts :: "link_checker \<Rightarrow> nat" where
  \<comment> \<open>the number of calls of check_url so far: the GETs of check_url in the log\<close>
  "fetch_attempts self =
     length (filter (\<lambda>c. case c of CheckGet u \<Rightarrow> True | BodyGet u \<Rightarrow> False) (get_log self))"

text \<open>
  The iteration boundaries of a crawl that starts from \<open>self0\<close>: the values of
  \<open>pages_checked\<close> and of the object each time the condition of the \<open>while\<close> is evaluated.
\<close>

inductive boundary :: "world \<Rightarrow> link_checker \<Rightarrow> int \<Rightarrow> link_checker \<Rightarrow> bool"
  for W :: world and self0 :: link_checker where
  boundary_start: "boundary W self0 0 self0"
| boundary_next: "boundary W self0 pages_checked self \<Longrightarrow> loop_cond pages_checked self \<Longrightarrow>
     crawl_body W pages_checked self = (None, pages_checked', self') \<Longrightarrow>
     boundary W self0 pages_checked' self'"

subsection \<open>generate_report\<close>

record scan_info =
  scan_base_url :: string
  scan_timestamp :: string
  total_pages_checked :: nat
  total_links_found :: nat

record summary =
  summary_valid_links :: nat
  summary_broken_links :: nat
  success_rate :: real

record report =
  report_scan_info :: scan_info
  report_summary :: summary
  report_broken_links :: "link_record list"
  report_valid_links :: "fetch_result list"

definition generate_report :: "link_checker \<Rightarrow> string \<Rightarrow> report" where
  \<comment> \<open>the second argument is \<open>datetime.now().isoformat()\<close>; Python's floats are taken as
      the real numbers they stand for\<close>
  "generate_report self now =
     \<lparr>report_scan_info =
        \<lparr>scan_base_url = base_url self,
         scan_timestamp = now,
         total_pages_checked = card (visited self),
         total_links_found = length (valid_links self) + length (broken_links self)\<rparr>,
      report_summary =
        \<lparr>summary_valid_links = length (valid_links self),
         summary_broken_links = length (broken_links self),
         success_rate =
           (if length (valid_links self) + length (broken_links self) > 0
            then (real (length (valid_links self))
                    / real (length (valid_links self) + length (broken_links self))) * 100
            else 0)\<rparr>,
      report_broken_links = broken_links self,
      report_valid_links = valid_links self\<rparr>"

section \<open>A model of urllib.parse\<close>

text \<open>
  A world for running the script on concrete inputs needs \<open>urlparse\<close> and \<open>urljoin\<close>.
  The definitions below follow \<open>Lib/urllib/parse.py\<close> of CPython 3.12 on ASCII text
  (\<open>urlsplit\<close>, \<open>_splitparams\<close>, \<open>urlparse\<close>, \<open>urlunsplit\<close>, \<open>urlunparse\<close>, \<open>urljoin\<close>).
  One part is left out: CPython validates a bracketed host (an IPv6 literal) with the
  \<open>ipaddress\<close> module; the model answers ValueError for every authority with a bracket,
  so it says nothing about such URLs.
\<close>

definition c0_control_or_space :: "char \<Rightarrow> bool" where
  "c0_control_or_space c \<longleftrightarrow> (of_char c :: nat) \<le> 32"

definition unsafe_url_byte :: "char \<Rightarrow> bool" where
  "unsafe_url_byte c \<longleftrightarrow> c = CHR 0x09 \<or> c = CHR 0x0D \<or> c = CHR 0x0A"

definition ascii_alpha :: "char \<Rightarrow> bool" where
  "ascii_alpha c \<longleftrightarrow> c \<in> set (ascii_lower @ ascii_upper)"

definition scheme_char :: "char \<Rightarrow> bool" where
  "scheme_char c \<longleftrightarrow> c \<in> set (ascii_lower @ ascii_upper @ ''0123456789+-.'')"

definition uses_relative :: "string list" where
  "uses_relative =
     [[], ''ftp'', ''http'', ''gopher'', ''nntp'', ''imap'', ''wais'', ''file'', ''https'',
      ''shttp'', ''mms'', ''prospero'', ''rtsp'', ''rtsps'', ''rtspu'', ''sftp'', ''svn'',
      ''svn+ssh'', ''ws'', ''wss'']"

definition uses_netloc :: "string list" where
  "uses_netloc =
     [[], ''ftp'', ''http'', ''gopher'', ''nntp'', ''telnet'', ''imap'', ''wais'', ''file'',
      ''mms'', ''https'', ''shttp'', ''snews'', ''prospero'', ''rtsp'', ''rtsps'', ''rtspu'',
      ''rsync'', ''svn'', ''svn+ssh'', ''sftp'', ''nfs'', ''git'', ''git+ssh'', ''ws'', ''wss'',
      ''itms-services'']"

definition uses_params :: "string list" where
  "uses_params =
     [[], ''ftp'', ''hdl'', ''prospero'', ''http'', ''imap'', ''https'', ''shttp'', ''rtsp'',
      ''rtsps'', ''rtspu'', ''sip'', ''sips'', ''mms'', ''sftp'', ''tel'']"

text \<open>\<open>before c s\<close> and \<open>after c s\<close> are the two parts of \<open>s.split(c, 1)\<close> when \<open>c\<close> is
  in \<open>s\<close>; when it is not, \<open>before c s\<close> is \<open>s\<close> and \<open>after c s\<close> is empty.\<close>

definition before :: "char \<Rightarrow> string \<Rightarrow> string" where
  "before c s = takeWhile (\<lambda>x. x \<noteq> c) s"

definition after :: "char \<Rightarrow> string \<Rightarrow> string" where
  "after c s = drop 1 (dropWhile (\<lambda>x. x \<noteq> c) s)"

definition strip_c0 :: "string \<Rightarrow> string" where
  "strip_c0 s = rev (dropWhile c0_control_or_space (rev (dropWhile c0_control_or_space s)))"

definition split_scheme :: "string \<Rightarrow> (string \<times> string) option" where
  \<comment> \<open>\<open>i = url.find(':')\<close>; the scheme is \<open>url[:i]\<close> when \<open>i > 0\<close>, \<open>url[0]\<close> is an ASCII
      letter and every character of \<open>url[:i]\<close> is a scheme character\<close>
  "split_scheme u =
     (if CHR '':'' \<in> set u \<and> before CHR '':'' u \<noteq> []
         \<and> ascii_alpha (hd u) \<and> list_all scheme_char (before CHR '':'' u)
      then Some (lower (before CHR '':'' u), after CHR '':'' u)
      else None)"

definition netloc_delim :: "char \<Rightarrow> bool" where
  "netloc_delim c \<longleftrightarrow> c = CHR ''/'' \<or> c = CHR ''?'' \<or> c = CHR ''#''"

definition py_urlsplit ::
  "string \<Rightarrow> string \<Rightarrow> exn + (string \<times> string \<times> string \<times> string \<times> string)" where
  \<comment> \<open>\<open>urlsplit(url, scheme)\<close>: scheme, netloc, path, query, fragment\<close>
  "py_urlsplit url0 scheme0 =
     (let u1 = filter (\<lambda>c. \<not> unsafe_url_byte c) (dropWhile c0_control_or_space url0);
          scheme1 = filter (\<lambda>c. \<not> unsafe_url_byte c) (strip_c0 scheme0);
          scheme2 = (case split_scheme u1 of Some (s, r) \<Rightarrow> s | None \<Rightarrow> scheme1);
          u2 = (case split_scheme u1 of Some (s, r) \<Rightarrow> r | None \<Rightarrow> u1);
          nl = (if take 2 u2 = ''//'' then takeWhile (\<lambda>c. \<not> netloc_delim c) (drop 2 u2) else []);
          u3 = (if take 2 u2 = ''//'' then dropWhile (\<lambda>c. \<not> netloc_delim c) (drop 2 u2) else u2)
      in if CHR ''['' \<in> set nl \<or> CHR '']'' \<in> set nl then Inl ValueError
         else Inr (scheme2, nl, before CHR ''?'' (before CHR ''#'' u3),
                   after CHR ''?'' (before CHR ''#'' u3), after CHR ''#'' u3))"

definition splitparams :: "string \<Rightarrow> string \<times> string" where
  \<comment> \<open>\<open>_splitparams(url)\<close>, called when \<open>';' in url\<close>: the first \<open>;\<close> after the last \<open>/\<close>
      splits the path from the parameters\<close>
  "splitparams u =
     (let last_seg = rev (takeWhile (\<lambda>c. c \<noteq> CHR ''/'') (rev u));
          dirs = take (length u - length last_seg) u
      in if CHR '';'' \<in> set last_seg
         then (dirs @ before CHR '';'' last_seg, after CHR '';'' last_seg)
         else (u, []))"

definition py_urlparse_with :: "string \<Rightarrow> string \<Rightarrow> exn + parse_result" where
  \<comment> \<open>\<open>urlparse(url, scheme)\<close>\<close>
  "py_urlparse_with u scheme0 =
     (case py_urlsplit u scheme0 of
        Inl e \<Rightarrow> Inl e
      | Inr (sch, nl, p, q, f) \<Rightarrow>
          if sch \<in> set uses_params \<and> CHR '';'' \<in> set p
          then Inr \<lparr>scheme = sch, netloc = nl, path = fst (splitparams p),
                    params = snd (splitparams p), query = q, fragment = f\<rparr>
          else Inr \<lparr>scheme = sch, netloc = nl, path = p, params = [], query = q,
                    fragment = f\<rparr>)"

definition py_urlparse :: "string \<Rightarrow> exn + parse_result" where
  "py_urlparse u = py_urlparse_with u []"

definition py_urlunsplit :: "string \<Rightarrow> string \<Rightarrow> string \<Rightarrow> string \<Rightarrow> string \<Rightarrow> string" where
  "py_urlunsplit sch nl p q f =
     (let u1 = (if nl \<noteq> [] \<or> (sch \<noteq> [] \<and> sch \<in> set uses_netloc \<and> take 2 p \<noteq> ''//'')
                then ''//'' @ nl @ (if p \<noteq> [] \<and> take 1 p \<noteq> ''/'' then ''/'' @ p else p)
                else p);
          u2 = (if sch \<noteq> [] then sch @ '':'' @ u1 else u1);
          u3 = (if q \<noteq> [] then u2 @ ''?'' @ q else u2)
      in if f \<noteq> [] then u3 @ ''#'' @ f else u3)"

definition py_urlunparse :: "parse_result \<Rightarrow> string" where
  "py_urlunparse r =
     py_urlunsplit (scheme r) (netloc r)
       (if params r \<noteq> [] then path r @ '';'' @ params r else path r) (query r) (fragment r)"

fun split_on :: "char \<Rightarrow> string \<Rightarrow> string list" where
  \<comment> \<open>\<open>s.split(c)\<close>\<close>
  "split_on c [] = [[]]"
| "split_on c (x # xs) =
     (if x = c then [] # split_on c xs
      else (case split_on c xs of [] \<Rightarrow> [[x]] | y # ys \<Rightarrow> (x # y) # ys))"

fun join :: "string \<Rightarrow> string list \<Rightarrow> string" where
  \<comment> \<open>\<open>sep.join(xs)\<close>\<close>
  "join sep [] = []"
| "join sep [x] = x"
| "join sep (x # y # ys) = x @ sep @ join sep (y # ys)"

definition drop_empty_inner :: "string list \<Rightarrow> string list" where
  \<comment> \<open>\<open>segments[1:-1] = filter(None, segments[1:-1])\<close>\<close>
  "drop_empty_inner segs =
     (if length segs < 2 then segs
      else hd segs # filter (\<lambda>x. x \<noteq> []) (butlast (tl segs)) @ [last segs])"

fun resolve_segments :: "string list \<Rightarrow> string list \<Rightarrow> string list" where
  \<comment> \<open>the \<open>for seg in segments\<close> loop of urljoin, from the resolved path so far\<close>
  "resolve_segments resolved [] = resolved"
| "resolve_segments resolved (seg # segs) =
     (if seg = ''..'' then resolve_segments (butlast resolved) segs
      else if seg = ''.'' then resolve_segments resolved segs
      else resolve_segments (resolved @ [seg]) segs)"

definition py_urljoin :: "string \<Rightarrow> string \<Rightarrow> exn + string" where
  "py_urljoin base u =
     (if base = [] then Inr u
      else if u = [] then Inr base
      else
        (case py_urlparse_with base [] of
           Inl e \<Rightarrow> Inl e
         | Inr b \<Rightarrow>
             (case py_urlparse_with u (scheme b) of
                Inl e \<Rightarrow> Inl e
              | Inr r \<Rightarrow>
                  if scheme r \<noteq> scheme b \<or> scheme r \<notin> set uses_relative then Inr u
                  else if scheme r \<in> set uses_netloc \<and> netloc r \<noteq> [] then Inr (py_urlunparse r)
                  else
                    (let nl = (if scheme r \<in> set uses_netloc then netloc b else netloc r) in
                     if path r = [] \<and> params r = [] then
                       Inr (py_urlunparse
                              \<lparr>scheme = scheme r, netloc = nl, path = path b, params = params b,
                               query = (if query r = [] then query b else query r),
                               fragment = fragment r\<rparr>)
                     else
                       (let bparts = split_on CHR ''/'' (path b);
                            base_parts = (if last bparts \<noteq> [] then butlast bparts else bparts);
                            segments =
                              (if take 1 (path r) = ''/'' then split_on CHR ''/'' (path r)
                               else drop_empty_inner (base_parts @ split_on CHR ''/'' (path r)));
                            resolved = resolve_segments [] segments;
                            resolved_path =
                              (if last segments = ''.'' \<or> last segments = ''..''
                               then resolved @ [[]] else resolved);
                            joined = join ''/'' resolved_path
                        in Inr (py_urlunparse
                                  \<lparr>scheme = scheme r, netloc = nl,
                                   path = (if joined = [] then ''/'' else joined),
                                   params = params r, query = query r,
                                   fragment = fragment r\<rparr>))))))"

definition python :: "(get_call list \<Rightarrow> get_call \<Rightarrow> get_outcome) \<Rightarrow> world" where
  \<comment> \<open>the world with this model of urllib.parse and the given network\<close>
  "python net = \<lparr>urlparse = py_urlparse, urljoin = py_urljoin, session_get = net\<rparr>"

section \<open>Worlds for running the script\<close>

definition offline :: "get_call list \<Rightarrow> get_call \<Rightarrow> get_outcome" where
  \<comment> \<open>a network on which every GET fails\<close>
  "offline h c = Raises (RequestException ''Connection refused'')"

definition ok_page :: "string \<Rightarrow> string \<Rightarrow> get_outcome" where
  \<comment> \<open>a 200 response with an HTML body\<close>
  "ok_page u body =
     Returns \<lparr>resp_status_code = 200, resp_elapsed = 1000, resp_url = u,
              resp_content_type = Some ''text/html; charset=utf-8'', resp_text = body\<rparr>"

definition status_page :: "int \<Rightarrow> get_call list \<Rightarrow> get_call \<Rightarrow> get_outcome" where
  \<comment> \<open>a network on which every GET gets the given status and no HTML\<close>
  "status_page c h g =
     Returns \<lparr>resp_status_code = c, resp_elapsed = 1000, resp_url = ''https://example.test/'',
              resp_content_type = Some ''application/json'', resp_text = []\<rparr>"

definition one_page_site ::
  "string \<Rightarrow> string \<Rightarrow> get_call list \<Rightarrow> get_call \<Rightarrow> get_outcome" where
  \<comment> \<open>a network that serves the HTML \<open>body\<close> at \<open>seed\<close> and a file that is not HTML at
      every other URL\<close>
  "one_page_site seed body h c =
     (case c of
        CheckGet u \<Rightarrow>
          if u = seed then ok_page u body
          else Returns \<lparr>resp_status_code = 200, resp_elapsed = 1000, resp_url = u,
                        resp_content_type = Some ''application/octet-stream'', resp_text = []\<rparr>
      | BodyGet u \<Rightarrow> ok_page u (if u = seed then body else []))"

definition foreign_html :: string where
  "foreign_html =
     ''<a href='https://other.test/x'>x</a><img src='https://example.test.evil.com/x.png'>''"

definition versions_html :: string where
  "versions_html =
     ''<script src='/app.js?v=1'></script><script src='/app.js?v=2'></script>''"

section \<open>check_url\<close>




section \<open>generate_report\<close>

text \<open>
  C8. The success rate of the report is 100 * valid / (valid + broken) when the two lists
  hold a record, and 0 when both are empty (the numbers are the reals that Python's
  floats stand for).
\<close>

theorem success_rate_formula:
  "success_rate (report_summary (generate_report self now)) =
     (if length (valid_links self) + length (broken_links self) > 0
      then 100 * real (length (valid_links self))
             / real (length (valid_links self) + length (broken_links self))
      else 0)
   \<and> success_rate (report_summary
        (generate_report (self\<lparr>valid_links := [], broken_links := []\<rparr>) now)) = 0"
  by (simp add: generate_report_def)

section \<open>is_valid_url\<close>

text \<open>
  What is_valid_url rejects, for every urlparse: it returns False, and never raises, for
  every URL whose authority is not empty and differs from the authority of the base URL,
  for every URL that declares a scheme other than http and https, for every URL whose
  text, lower-cased, ends with a denylisted extension, and for every URL (or base URL)
  that urlparse fails to parse.
\<close>

theorem is_valid_url_rejects:
  "(urlparse W u = Inr parsed \<and> urlparse W (base_url self) = Inr base_parsed
      \<and> netloc parsed \<noteq> [] \<and> netloc parsed \<noteq> netloc base_parsed
      \<longrightarrow> \<not> is_valid_url W self u)
   \<and> (urlparse W u = Inr parsed \<and> scheme parsed \<noteq> []
        \<and> scheme parsed \<noteq> ''http'' \<and> scheme parsed \<noteq> ''https''
      \<longrightarrow> \<not> is_valid_url W self u)
   \<and> (ext \<in> set skip_extensions \<and> endswith (lower u) ext \<longrightarrow> \<not> is_valid_url W self u)
   \<and> (urlparse W u = Inl e \<or> urlparse W (base_url self) = Inl e
      \<longrightarrow> \<not> is_valid_url W self u)"
proof -
  have ext: "list_ex (\<lambda>x. endswith (lower u) x) skip_extensions"
    if "ext \<in> set skip_extensions" "endswith (lower u) ext"
    using that by (auto simp: list_ex_iff)
  show ?thesis
    using ext
    by (auto simp: is_valid_url_def is_valid_url_body_def split: sum.splits)
qed

theorem is_valid_url_rejects_witness:
  "\<not> is_valid_url (python offline) (init ''https://example.test/'' 50 1)
       ''https://other.test/x''
   \<and> \<not> is_valid_url (python offline) (init ''https://example.test/'' 50 1)
       ''ftp://example.test/files''
   \<and> \<not> is_valid_url (python offline) (init ''https://example.test/'' 50 1)
       ''https://example.test/Logo.PNG''
   \<and> \<not> is_valid_url (python offline) (init ''https://example.test/'' 50 1)
       ''https://[example.test/x''"
proof -
  let ?W = "python offline" and ?s = "init ''https://example.test/'' 50 1"
  have base: "urlparse ?W (base_url ?s) =
      Inr \<lparr>scheme = ''https'', netloc = ''example.test'', path = [], params = [],
           query = [], fragment = []\<rparr>"
    by code_simp
  have other: "urlparse ?W ''https://other.test/x'' =
      Inr \<lparr>scheme = ''https'', netloc = ''other.test'', path = ''/x'', params = [],
           query = [], fragment = []\<rparr>"
    by code_simp
  have ftp: "urlparse ?W ''ftp://example.test/files'' =
      Inr \<lparr>scheme = ''ftp'', netloc = ''example.test'', path = ''/files'', params = [],
           query = [], fragment = []\<rparr>"
    by code_simp
  have png: "''.png'' \<in> set skip_extensions \<and> endswith (lower ''https://example.test/Logo.PNG'') ''.png''"
    by code_simp
  have bad: "urlparse ?W ''https://[example.test/x'' = Inl ValueError"
    by code_simp
  let ?b = "\<lparr>scheme = ''https'', netloc = ''example.test'', path = [], params = [],
           query = [], fragment = []\<rparr>"
  have 1: "\<not> is_valid_url ?W ?s ''https://other.test/x''"
    using is_valid_url_rejects
            [of ?W "''https://other.test/x''"
                "\<lparr>scheme = ''https'', netloc = ''other.test'', path = ''/x'', params = [],
                  query = [], fragment = []\<rparr>" ?s ?b "''.png''" ValueError]
          base other
    by simp
  have 2: "\<not> is_valid_url ?W ?s ''ftp://example.test/files''"
    using is_valid_url_rejects
            [of ?W "''ftp://example.test/files''"
                "\<lparr>scheme = ''ftp'', netloc = ''example.test'', path = ''/files'',
                  params = [], query = [], fragment = []\<rparr>" ?s ?b "''.png''" ValueError]
          ftp
    by simp
  have 3: "\<not> is_valid_url ?W ?s ''https://example.test/Logo.PNG''"
    using is_valid_url_rejects
            [of ?W "''https://example.test/Logo.PNG''" ?b ?s ?b "''.png''" ValueError] png
    by blast
  have 4: "\<not> is_valid_url ?W ?s ''https://[example.test/x''"
    using is_valid_url_rejects
            [of ?W "''https://[example.test/x''" ?b ?s ?b "''.png''" ValueError] bad
    by blast
  from 1 2 3 4 show ?thesis by blast
qed

text \<open>
  C5 on a run of the code. The comment of is_valid_url says it skips the file extensions
  that are not web pages, and the test is \<open>url.lower().endswith(ext)\<close> on the whole URL,
  not on \<open>parsed.path\<close>: the path of \<open>https://example.test/logo.png?v=2\<close> ends with
  \<open>.png\<close>, and is_valid_url accepts the URL. For a page with the link
  \<open>/style.css?v=3\<close>, extract_links then returns \<open>https://example.test/style.css\<close>, a
  URL that is_valid_url itself rejects.
\<close>

theorem is_valid_url_accepts_extension_before_query:
  "py_urlparse ''https://example.test/logo.png?v=2'' =
     Inr \<lparr>scheme = ''https'', netloc = ''example.test'', path = ''/logo.png'',
          params = [], query = ''v=2'', fragment = []\<rparr>
   \<and> endswith ''/logo.png'' ''.png''
   \<and> ''.png'' \<in> set skip_extensions
   \<and> is_valid_url (python offline) (init ''https://example.test/'' 50 1)
        ''https://example.test/logo.png?v=2''
   \<and> extract_links (python offline) (init ''https://example.test/'' 50 1)
        ''<link href='/style.css?v=3'>'' ''https://example.test/''
       = Inr [''https://example.test/style.css'']
   \<and> \<not> is_valid_url (python offline) (init ''https://example.test/'' 50 1)
        ''https://example.test/style.css''"
  by code_simp

section \<open>The body of the crawl loop\<close>

lemma check_url_snd: "snd (check_url W self u) = self\<lparr>get_log := get_log self @ [CheckGet u]\<rparr>"
  by (simp add: check_url_def Let_def split: get_outcome.splits exn.splits)

lemma discover_frame:
  "visited (discover W self u) = visited self"
  "broken_links (discover W self u) = broken_links self"
  "valid_links (discover W self u) = valid_links self"
  "max_pages (discover W self u) = max_pages self"
  "base_url (discover W self u) = base_url self"
  "delay (discover W self u) = delay self"
  "get_log (discover W self u) = get_log self @ [BodyGet u]"
  "\<exists>xs. to_visit (discover W self u) = to_visit self @ xs"
  by (simp_all add: discover_def Let_def split: get_outcome.splits sum.splits)

text \<open>
  C1, as the code has it. A pass of the loop that takes a URL \<open>u\<close> not visited before, and
  whose check_url returns \<open>result\<close>, appends one record: when \<open>result\<close> has an error
  message that is not empty, \<open>result\<close> with the issue \<open>Connection error: <message>\<close> to the
  broken list and nothing to the valid list; else when the status code is 400 or more,
  \<open>result\<close> with the issue \<open>HTTP <code> error\<close> to the broken list and nothing to the
  valid list; else, with a status code under 400, \<open>result\<close> to the valid list and nothing
  to the broken list.
\<close>

theorem crawl_body_classifies:
  assumes "to_visit self = u # rest" and "u \<notin> visited self"
    and "fst (check_url W (self\<lparr>to_visit := rest, visited := insert u (visited self)\<rparr>) u) = Inr result"
    and "crawl_body W pages_checked self = (e, pages_checked', self')"
  shows "(error result = Some msg \<and> msg \<noteq> [] \<longrightarrow>
           broken_links self' = broken_links self @ [with_issue result (''Connection error: '' @ msg)]
           \<and> valid_links self' = valid_links self)
       \<and> (\<not> truthy (error result) \<and> status_code result = Some code \<and> code \<ge> 400 \<longrightarrow>
           broken_links self' = broken_links self @ [with_issue result (''HTTP '' @ str_int code @ '' error'')]
           \<and> valid_links self' = valid_links self)
       \<and> (\<not> truthy (error result) \<and> status_code result = Some code \<and> code < 400 \<longrightarrow>
           valid_links self' = valid_links self @ [result]
           \<and> broken_links self' = broken_links self)"
proof -
  let ?s2 = "self\<lparr>to_visit := rest, visited := insert u (visited self)\<rparr>"
  obtain s3 where c: "check_url W ?s2 u = (Inr result, s3)"
    using assms(3) by (cases "check_url W ?s2 u") auto
  have s3: "s3 = ?s2\<lparr>get_log := get_log ?s2 @ [CheckGet u]\<rparr>"
    using check_url_snd [of W ?s2 u] c by simp
  show ?thesis
    using assms(1,2,4) c
    by (auto simp: crawl_body_def Let_def classify_def s3 truthy_def fmt_def discover_frame
             split: sum.splits if_splits option.splits)
qed

theorem crawl_body_classifies_witness:
  "broken_links (snd (snd (crawl_body (python offline) 0 (init ''https://example.test/'' 50 1))))
     = [\<lparr>url = ''https://example.test/'', status_code = None, response_time = None,
          final_url = None, content_type = None, error = Some ''Connection refused'',
          issue = ''Connection error: Connection refused''\<rparr>]
   \<and> valid_links (snd (snd (crawl_body (python offline) 0 (init ''https://example.test/'' 50 1)))) = []
   \<and> broken_links (snd (snd (crawl_body (python (status_page 404)) 0 (init ''https://example.test/'' 50 1))))
     = [\<lparr>url = ''https://example.test/'', status_code = Some 404, response_time = Some 1000,
          final_url = Some ''https://example.test/'', content_type = Some ''application/json'',
          error = None, issue = ''HTTP 404 error''\<rparr>]
   \<and> valid_links (snd (snd (crawl_body (python (status_page 404)) 0 (init ''https://example.test/'' 50 1)))) = []
   \<and> valid_links (snd (snd (crawl_body (python (status_page 204)) 0 (init ''https://example.test/'' 50 1))))
     = [\<lparr>url = ''https://example.test/'', status_code = Some 204, response_time = Some 1000,
          final_url = Some ''https://example.test/'', content_type = Some ''application/json'',
          error = None\<rparr>]
   \<and> broken_links (snd (snd (crawl_body (python (status_page 204)) 0 (init ''https://example.test/'' 50 1)))) = []"
proof -
  let ?s = "init ''https://example.test/'' 50 1"
  let ?u = "''https://example.test/''"
  have tv: "to_visit ?s = ?u # []" and nv: "?u \<notin> visited ?s"
    by (simp_all add: init_def)
  let ?s2 = "?s\<lparr>to_visit := [], visited := insert ?u (visited ?s)\<rparr>"
  let ?r1 = "\<lparr>url = ?u, status_code = None, response_time = None,
          final_url = None, content_type = None, error = Some ''Connection refused''\<rparr>"
  let ?r2 = "\<lambda>c. \<lparr>url = ?u, status_code = Some c, response_time = Some 1000,
          final_url = Some ''https://example.test/'', content_type = Some ''application/json'',
          error = None\<rparr>"
  have c1: "fst (check_url (python offline) ?s2 ?u) = Inr ?r1"
    by (simp add: check_url_def python_def offline_def)
  have c2: "fst (check_url (python (status_page c)) ?s2 ?u) = Inr (?r2 c)" for c
    by (simp add: check_url_def python_def status_page_def)
  have a: "crawl_body W 0 ?s = (fst (crawl_body W 0 ?s), fst (snd (crawl_body W 0 ?s)), snd (snd (crawl_body W 0 ?s)))" for W
    by simp
  show ?thesis
    using crawl_body_classifies [OF tv nv c1 a, of "''Connection refused''" 0]
          crawl_body_classifies [OF tv nv c2 a, of 404 "[]" 404]
          crawl_body_classifies [OF tv nv c2 a, of 204 "[]" 204]
    by (simp add: with_issue_def truthy_def init_def str_int_def str_nat.simps)
qed

text \<open>
  The claim as stated fails on the text of the issue: the code writes \<open>Connection error\<close>
  with a capital letter.
\<close>

theorem crawl_body_connection_error_counterexample:
  "map issue (broken_links (snd (snd (crawl_body (python offline) 0
        (init ''https://example.test/'' 50 1))))) = [''Connection error: Connection refused'']
   \<and> ''Connection error: Connection refused'' \<noteq> ''connection error: Connection refused''"
  by code_simp

lemma classify_frame:
  assumes "classify W self u result = Inr self'"
  shows "max_pages self' = max_pages self" "visited self' = visited self"
    "get_log self' = get_log self \<or> get_log self' = get_log self @ [BodyGet u]"
    "length (valid_links self') + length (broken_links self')
       = length (valid_links self) + length (broken_links self) + 1"
  using assms
  by (auto simp: classify_def Let_def discover_frame split: if_splits option.splits)

lemma classify_raises:
  "classify W self u result = Inl e \<Longrightarrow> e = TypeError"
  by (auto simp: classify_def Let_def split: if_splits option.splits)

lemma crawl_body_skip:
  assumes "to_visit self = u # rest" "u \<in> visited self"
  shows "crawl_body W pc self = (None, pc, self\<lparr>to_visit := rest\<rparr>)"
  using assms by (simp add: crawl_body_def)

lemma crawl_body_count:
  assumes "to_visit self = u # rest" "u \<notin> visited self"
    and "crawl_body W pc self = (e, pc', self')"
  shows "pc' = pc + 1" "max_pages self' = max_pages self"
    "visited self' = insert u (visited self)"
    "get_log self' = get_log self @ [CheckGet u]
       \<or> get_log self' = get_log self @ [CheckGet u, BodyGet u]"
    "e = None \<Longrightarrow> length (valid_links self') + length (broken_links self')
       = length (valid_links self) + length (broken_links self) + 1"
proof -
  let ?s2 = "self\<lparr>to_visit := rest, visited := insert u (visited self)\<rparr>"
  let ?s3 = "?s2\<lparr>get_log := get_log ?s2 @ [CheckGet u]\<rparr>"
  obtain r where c: "check_url W ?s2 u = (r, ?s3)"
    using check_url_snd [of W ?s2 u] by (cases "check_url W ?s2 u") auto
  show "pc' = pc + 1" "max_pages self' = max_pages self"
    "visited self' = insert u (visited self)"
    "get_log self' = get_log self @ [CheckGet u]
       \<or> get_log self' = get_log self @ [CheckGet u, BodyGet u]"
    "e = None \<Longrightarrow> length (valid_links self') + length (broken_links self')
       = length (valid_links self) + length (broken_links self) + 1"
    using assms c classify_frame [of W ?s3 u _ self']
    by (auto simp: crawl_body_def Let_def split: sum.splits)
qed

lemma crawl_loop_rule:
  assumes I0: "I pc self"
    and step: "\<And>pc self pc' self'. I pc self \<Longrightarrow> loop_cond pc self \<Longrightarrow>
        crawl_body W pc self = (None, pc', self') \<Longrightarrow> I pc' self'"
    and raised: "\<And>pc self e pc' self'. I pc self \<Longrightarrow> loop_cond pc self \<Longrightarrow>
        crawl_body W pc self = (Some e, pc', self') \<Longrightarrow> Q (Some e, pc', self')"
    and exit: "\<And>pc self. I pc self \<Longrightarrow> \<not> loop_cond pc self \<Longrightarrow> Q (None, pc, self)"
  shows "\<exists>r. crawl_loop W pc self = Some r \<and> Q r"
proof -
  have "I pc self \<Longrightarrow> m = (nat (max_pages self - pc), length (to_visit self)) \<Longrightarrow>
        \<exists>r. crawl_loop W pc self = Some r \<and> Q r" for m
  proof (induction m arbitrary: pc self
        rule: wf_induct_rule [OF wf_lex_prod [OF wf_less_than wf_less_than]])
  case (1 m)
  note less = this
  show ?case
  proof (cases "loop_cond pc self")
    case False
    then show ?thesis
      using exit [OF less(2)] by (subst crawl_loop.simps) simp
  next
    case True
    obtain e pc' self' where b: "crawl_body W pc self = (e, pc', self')"
      by (cases "crawl_body W pc self") auto
    from True obtain u rest where tv: "to_visit self = u # rest"
      by (cases "to_visit self") (auto simp: loop_cond_def)
    show ?thesis
    proof (cases e)
      case (Some x)
      then show ?thesis
        using raised [OF less(2) True] b True by (subst crawl_loop.simps) simp
    next
      case None
      have dec: "((nat (max_pages self' - pc'), length (to_visit self')),
                  (nat (max_pages self - pc), length (to_visit self)))
                 \<in> less_than <*lex*> less_than"
      proof (cases "u \<in> visited self")
        case True
        with tv b crawl_body_skip [OF tv True, of W pc] show ?thesis by auto
      next
        case False
        from crawl_body_count(1,2) [OF tv False b] \<open>loop_cond pc self\<close>
        show ?thesis by (auto simp: loop_cond_def)
      qed
      have "I pc' self'" using step [OF less(2) True] b None by simp
      from less(1) [OF _ this refl] dec less(3) show ?thesis
        using b None True by (subst crawl_loop.simps) simp
    qed
  qed
  qed
  from this [OF I0 refl] show ?thesis .
qed

section \<open>The crawl loop\<close>

text \<open>
  C9. The crawl loop ends, for every world (every answer of the network, every list of
  extracted links) and every object it starts from: crawl returns or raises. The loop is
  defined as a partial function, for which not ending is the value \<open>None\<close>; its
  termination is this theorem, by the order on the pages left in the budget and then the
  length of the frontier.
\<close>

theorem crawl_terminates: "\<exists>r. crawl W self = Some r"
  using crawl_loop_rule [of "\<lambda>pc s. True" 0 self W "\<lambda>r. True"]
  by (auto simp: crawl_def)

lemma crawl_body_attempts:
  assumes "loop_cond pc self" and "crawl_body W pc self = (e, pc', self')"
  shows "max_pages self' = max_pages self
    \<and> int (fetch_attempts self') - pc' = int (fetch_attempts self) - pc
    \<and> pc \<le> pc' \<and> pc' \<le> pc + 1
    \<and> int (length (get_log self')) - 2 * pc' \<le> int (length (get_log self)) - 2 * pc"
proof -
  from assms(1) obtain u rest where tv: "to_visit self = u # rest"
    by (cases "to_visit self") (auto simp: loop_cond_def)
  show ?thesis
  proof (cases "u \<in> visited self")
    case True
    from crawl_body_skip [OF tv True, of W pc] assms(2)
    show ?thesis by (auto simp: fetch_attempts_def)
  next
    case False
    from crawl_body_count(1,2,4) [OF tv False assms(2)]
    show ?thesis by (auto simp: fetch_attempts_def)
  qed
qed

text \<open>
  C2. Whatever the frontier and the visited set hold at the start, and for every
  \<open>max_pages\<close> that is not negative, a crawl adds at most \<open>max_pages\<close> fetch attempts
  (calls of check_url) to those made before it.
\<close>

theorem crawl_fetch_budget:
  assumes "0 \<le> max_pages self"
  shows "\<exists>e pc self'. crawl W self = Some (e, pc, self')
           \<and> int (fetch_attempts self') \<le> int (fetch_attempts self) + max_pages self"
proof -
  let ?I = "\<lambda>pc s. 0 \<le> pc \<and> pc \<le> max_pages self \<and> max_pages s = max_pages self
                \<and> int (fetch_attempts s) = int (fetch_attempts self) + pc"
  let ?Q = "\<lambda>r. case r of (e, pc, s) \<Rightarrow>
              int (fetch_attempts s) \<le> int (fetch_attempts self) + max_pages self"
  have "\<exists>r. crawl_loop W 0 self = Some r \<and> ?Q r"
  proof (rule crawl_loop_rule [where I = ?I])
    show "?I 0 self" using assms by simp
  next
    fix pc s pc' s'
    assume "?I pc s" "loop_cond pc s" "crawl_body W pc s = (None, pc', s')"
    with crawl_body_attempts [of pc s W None pc' s']
    show "?I pc' s'" by (auto simp: loop_cond_def)
  next
    fix pc s e pc' s'
    assume "?I pc s" "loop_cond pc s" "crawl_body W pc s = (Some e, pc', s')"
    with crawl_body_attempts [of pc s W "Some e" pc' s']
    show "?Q (Some e, pc', s')" by (auto simp: loop_cond_def)
  next
    fix pc s
    assume "?I pc s"
    then show "?Q (None, pc, s)" by simp
  qed
  then show ?thesis by (auto simp: crawl_def)
qed

theorem crawl_fetch_budget_witness:
  "(0::int) \<le> 2
   \<and> (\<exists>e pc self'. crawl (python offline) (init ''https://example.test/'' 2 0) = Some (e, pc, self')
         \<and> int (fetch_attempts self') \<le> 2)"
  using crawl_fetch_budget [of "init ''https://example.test/'' 2 0" "python offline"]
  by (simp add: init_def fetch_attempts_def)

lemma crawl_body_counts:
  assumes inv: "finite (visited self)" "pc = int (card (visited self))"
      "card (visited self) = length (valid_links self) + length (broken_links self)"
    and cond: "loop_cond pc self" and body: "crawl_body W pc self = (None, pc', self')"
  shows "finite (visited self') \<and> pc' = int (card (visited self'))
    \<and> card (visited self') = length (valid_links self') + length (broken_links self')"
proof -
  from cond obtain u rest where tv: "to_visit self = u # rest"
    by (cases "to_visit self") (auto simp: loop_cond_def)
  show ?thesis
  proof (cases "u \<in> visited self")
    case True
    from crawl_body_skip [OF tv True, of W pc] body inv
    show ?thesis by auto
  next
    case False
    from crawl_body_count(1,3,5) [OF tv False body] inv False
    show ?thesis by simp
  qed
qed

lemma boundary_counts:
  assumes "boundary W self0 pc self"
    and "finite (visited self0)" "0 = int (card (visited self0))"
      "card (visited self0) = length (valid_links self0) + length (broken_links self0)"
  shows "finite (visited self) \<and> pc = int (card (visited self))
    \<and> card (visited self) = length (valid_links self) + length (broken_links self)"
  using assms
proof (induction rule: boundary.induct)
  case boundary_start
  then show ?case by simp
next
  case (boundary_next pc self pc' self')
  then show ?case using crawl_body_counts [of self pc W pc' self'] by blast
qed

text \<open>
  C10. At every iteration boundary of a crawl of a new LinkChecker, \<open>pages_checked\<close> is
  the size of the visited set, which is the number of valid records plus the number of
  broken records; and the report of a crawl that returned has \<open>total_pages_checked\<close>
  equal to \<open>total_links_found\<close>.
\<close>

theorem crawl_counts_agree:
  "(boundary W (init b m d) pages_checked self \<longrightarrow>
      pages_checked = int (card (visited self))
      \<and> card (visited self) = length (valid_links self) + length (broken_links self))
   \<and> (crawl W (init b m d) = Some (None, pages_checked, self) \<longrightarrow>
      total_pages_checked (report_scan_info (generate_report self now))
        = total_links_found (report_scan_info (generate_report self now)))"
proof -
  let ?s0 = "init b m d"
  let ?I = "\<lambda>pc s. finite (visited s) \<and> pc = int (card (visited s))
    \<and> card (visited s) = length (valid_links s) + length (broken_links s)"
  have s0: "?I 0 ?s0" by (simp add: init_def)
  have 1: "?I pages_checked self" if "boundary W ?s0 pages_checked self"
    using boundary_counts [OF that] s0 by simp
  have "\<exists>r. crawl_loop W 0 ?s0 = Some r \<and> (case r of (e, pc, s) \<Rightarrow> e = None \<longrightarrow> ?I pc s)"
  proof (rule crawl_loop_rule [where I = ?I])
    show "?I 0 ?s0" by (rule s0)
  next
    fix pc s pc' s'
    assume "?I pc s" "loop_cond pc s" "crawl_body W pc s = (None, pc', s')"
    then show "?I pc' s'" using crawl_body_counts [of s pc W pc' s'] by blast
  qed auto
  then have 2: "?I pages_checked self" if "crawl W ?s0 = Some (None, pages_checked, self)"
    using that by (auto simp: crawl_def)
  show ?thesis using 1 2 by (auto simp: generate_report_def)
qed

theorem crawl_counts_agree_witness:
  "fst (snd (crawl_body (python (status_page 404)) 0 (init ''https://example.test/'' 50 0)))
     = int (card (visited (snd (snd (crawl_body (python (status_page 404)) 0
          (init ''https://example.test/'' 50 0))))))
   \<and> card (visited (snd (snd (crawl_body (python (status_page 404)) 0
          (init ''https://example.test/'' 50 0)))))
     = length (valid_links (snd (snd (crawl_body (python (status_page 404)) 0
          (init ''https://example.test/'' 50 0)))))
       + length (broken_links (snd (snd (crawl_body (python (status_page 404)) 0
          (init ''https://example.test/'' 50 0)))))
   \<and> (\<exists>pc self. crawl (python (status_page 404)) (init ''https://example.test/'' 50 0)
          = Some (None, pc, self)
        \<and> total_pages_checked (report_scan_info (generate_report self ''2026-01-01T00:00:00''))
          = total_links_found (report_scan_info (generate_report self ''2026-01-01T00:00:00'')))"
proof -
  let ?W = "python (status_page 404)"
  let ?s0 = "init ''https://example.test/'' 50 0"
  let ?b = "crawl_body ?W 0 ?s0"
  have c: "loop_cond 0 ?s0" by (simp add: loop_cond_def init_def)
  have n: "fst ?b = None" by code_simp
  then have b: "?b = (None, fst (snd ?b), snd (snd ?b))"
    by (metis prod.collapse)
  have bd: "boundary ?W ?s0 (fst (snd ?b)) (snd (snd ?b))"
    by (rule boundary_next [OF boundary_start c b])
  obtain r where r: "crawl ?W ?s0 = Some r"
    using crawl_loop_rule [of "\<lambda>pc s. True" 0 ?s0 ?W "\<lambda>r. True"] by (auto simp: crawl_def)
  have "fst (the (crawl ?W ?s0)) = None" by code_simp
  with r obtain pc self where cr: "crawl ?W ?s0 = Some (None, pc, self)"
    by (cases r) auto
  show ?thesis
    using crawl_counts_agree [of ?W "''https://example.test/''" 50 0 "fst (snd ?b)" "snd (snd ?b)"]
          crawl_counts_agree [of ?W "''https://example.test/''" 50 0 pc self "''2026-01-01T00:00:00''"]
          bd cr
    by auto
qed

section \<open>Resource links\<close>

text \<open>
  C3 on a run of the code. The seed page names \<open>/app.js?v=1\<close> and \<open>/app.js?v=2\<close> in
  \<open>src\<close> attributes. extract_links adds a \<open>src\<close> URL as it is, without the canonical form
  it computes for an \<open>href\<close> URL, so both are enqueued and visited: the visited set ends
  with two entries whose canonical form is \<open>https://example.test/app.js\<close>.
\<close>

theorem crawl_visits_one_canonical_form_twice:
  "map_option (\<lambda>(e, pages_checked, self). (e, pages_checked, visited self))
     (crawl (python (one_page_site ''https://example.test/'' versions_html))
        (init ''https://example.test/'' 10 0))
     = Some (None, 3, {''https://example.test/'', ''https://example.test/app.js?v=1'',
                       ''https://example.test/app.js?v=2''})
   \<and> canonicalize (python offline) ''https://example.test/app.js?v=1''
       = Inr ''https://example.test/app.js''
   \<and> canonicalize (python offline) ''https://example.test/app.js?v=2''
       = Inr ''https://example.test/app.js''"
  by code_simp

text \<open>
  C7 on a run of the code. The seed \<open>https://example.test/\<close> links to
  \<open>https://other.test/x\<close> in an \<open>href\<close> and to \<open>https://example.test.evil.com/x.png\<close> in a
  \<open>src\<close>. The \<open>href\<close> link is left out. The \<open>src\<close> link passes
  \<open>full_url.startswith(self.base_url)\<close>, since the base URL is \<open>https://example.test\<close>
  without its last slash: the URL, whose authority is \<open>example.test.evil.com\<close>, is added to
  the frontier, fetched, and recorded in the valid list.
\<close>

theorem crawl_fetches_foreign_authority:
  "to_visit (snd (snd (crawl_body (python (one_page_site ''https://example.test/'' foreign_html)) 0
       (init ''https://example.test/'' 10 0))))
     = [''https://example.test.evil.com/x.png'']
   \<and> map_option (\<lambda>(e, pages_checked, self).
          (e, pages_checked, map url (valid_links self), map url (broken_links self)))
       (crawl (python (one_page_site ''https://example.test/'' foreign_html))
          (init ''https://example.test/'' 10 0))
     = Some (None, 2, [''https://example.test/'', ''https://example.test.evil.com/x.png''], [])
   \<and> map_sum id netloc (py_urlparse ''https://example.test.evil.com/x.png'')
       = Inr ''example.test.evil.com''
   \<and> map_sum id netloc (py_urlparse ''https://example.test/'') = Inr ''example.test''"
  by code_simp

section \<open>The canonical form\<close>








































end
